theory Spec2Isabelle
  imports Complex_Main
begin

section \<open>Values and host operations\<close>

text \<open>
  The encoders of \<^verbatim>\<open>src/encoding\<close> are JavaScript static methods over dynamically typed
  values. A value is one of the kinds the code tests for with \<^verbatim>\<open>typeof\<close> and
  \<^verbatim>\<open>Array.isArray\<close>.

  \<^item> A string is a \<open>string\<close>. Text is held as its UTF-8 bytes, one \<open>char\<close> per byte; for
    ASCII text (every hex string is ASCII) a \<open>char\<close> is also one JavaScript code unit, so
    \<open>length\<close>, \<open>take\<close> and \<open>drop\<close> are \<^verbatim>\<open>.length\<close> and \<^verbatim>\<open>.slice\<close>. On text with characters
    beyond ASCII these count bytes where JavaScript counts code units.
  \<^item> A number is an exact rational. The codec computes with non-negative integers and with
    halves of them (a hex character count divided by two), which a double holds exactly
    below \<open>2 ^ 53\<close>. \<^verbatim>\<open>NaN\<close> and the infinities have no counterpart.
  \<^item> An object is a plain object: the list of its own enumerable properties in enumeration
    order. Its string form is \<^verbatim>\<open>[object Object]\<close>; an object that carries a property named
    \<^verbatim>\<open>toString\<close> or \<^verbatim>\<open>valueOf\<close> of its own converts differently and is not covered.
\<close>

datatype jsvalue =
    JUndefined
  | JNull
  | JBool bool
  | JNumber rat
  | JBigInt int
  | JString string
  | JArray "jsvalue list"
  | JObject "(string \<times> jsvalue) list"

text \<open>
  \<^verbatim>\<open>throw new Error(msg)\<close> is \<open>Inl (Error msg)\<close>. The other constructors are the errors the
  runtime itself raises. \<open>NotModelled\<close> marks the two host coercions of arrays and objects
  that the embedding does not follow (see \<open>BigInt\<close> and \<open>Buffer_from\<close> below).
\<close>

datatype error =
    Error string
  | TypeError
  | RangeError
  | SyntaxError
  | NotModelled

fun typeof :: "jsvalue \<Rightarrow> string" where
  "typeof JUndefined = ''undefined''"
| "typeof JNull = ''object''"
| "typeof (JBool _) = ''boolean''"
| "typeof (JNumber _) = ''number''"
| "typeof (JBigInt _) = ''bigint''"
| "typeof (JString _) = ''string''"
| "typeof (JArray _) = ''object''"
| "typeof (JObject _) = ''object''"

fun isArray :: "jsvalue \<Rightarrow> bool" where
  "isArray (JArray _) = True"
| "isArray _ = False"

subsection \<open>Hex digits\<close>

definition hex_digit :: "nat \<Rightarrow> char" where
  "hex_digit d = ''0123456789abcdef'' ! d"

definition is_hex_digit :: "char \<Rightarrow> bool" where
  "is_hex_digit c \<longleftrightarrow> c \<in> set ''0123456789abcdefABCDEF''"

definition digit_value :: "char \<Rightarrow> nat" where
  "digit_value c =
     (let n = (of_char c :: nat) in
      if 48 \<le> n \<and> n \<le> 57 then n - 48
      else if 97 \<le> n \<and> n \<le> 102 then n - 87
      else n - 55)"

text \<open>The value of a string of hex digits, most significant digit first.\<close>

definition hex_value :: "string \<Rightarrow> nat" where
  "hex_value ds = foldl (\<lambda>acc c. 16 * acc + digit_value c) 0 ds"

text \<open>\<^verbatim>\<open>n.toString(16)\<close> for a non-negative integer: the digits without padding.\<close>

fun hex_of_nat :: "nat \<Rightarrow> string" where
  "hex_of_nat n =
     (if n < 16 then [hex_digit n] else hex_of_nat (n div 16) @ [hex_digit (n mod 16)])"

declare hex_of_nat.simps [simp del]

text \<open>
  The digits after the point of \<^verbatim>\<open>x.toString(16)\<close>, for a fraction \<open>0 \<le> f < 1\<close>: the exact
  base-16 expansion, cut after the given number of digits. The expansion of a half is the
  single digit \<open>8\<close>.
\<close>

fun frac_hex :: "nat \<Rightarrow> rat \<Rightarrow> string" where
  "frac_hex 0 f = []"
| "frac_hex (Suc k) f =
     (if f = 0 then []
      else hex_digit (nat \<lfloor>f * 16\<rfloor>) # frac_hex k (f * 16 - of_int \<lfloor>f * 16\<rfloor>))"

text \<open>\<^verbatim>\<open>Number.prototype.toString(16)\<close>.\<close>

definition toString16 :: "rat \<Rightarrow> string" where
  "toString16 x =
     (let a = \<bar>x\<bar>; whole = hex_of_nat (nat \<lfloor>a\<rfloor>); f = a - of_int \<lfloor>a\<rfloor>
      in (if x < 0 then ''-'' else '''') @ whole
         @ (if f = 0 then '''' else CHR ''.'' # frac_hex 270 f))"

text \<open>\<^verbatim>\<open>BigInt.prototype.toString(16)\<close>.\<close>

definition bigint_toString16 :: "int \<Rightarrow> string" where
  "bigint_toString16 n = (if n < 0 then ''-'' else '''') @ hex_of_nat (nat \<bar>n\<bar>)"

text \<open>\<^verbatim>\<open>s.padStart(n, c)\<close> for a one-character filler: no effect once \<open>s\<close> has \<open>n\<close> characters.\<close>

definition padStart :: "nat \<Rightarrow> char \<Rightarrow> string \<Rightarrow> string" where
  "padStart n c s = replicate (n - length s) c @ s"

subsection \<open>Buffers\<close>

text \<open>
  \<^verbatim>\<open>Buffer.from(s, 'utf8')\<close> and \<^verbatim>\<open>buf.toString('utf8')\<close>. With text held as UTF-8 bytes both
  are the identity on the byte sequence. The host replaces a malformed byte sequence by
  U+FFFD when it decodes; \<open>Buffer_toString_utf8\<close> is exact on well-formed input.
\<close>

definition Buffer_from_utf8 :: "string \<Rightarrow> nat list" where
  "Buffer_from_utf8 s = map of_char s"

definition Buffer_toString_utf8 :: "nat list \<Rightarrow> string" where
  "Buffer_toString_utf8 bs = map char_of bs"

text \<open>\<^verbatim>\<open>buf.toString('hex')\<close>: two lowercase digits per byte.\<close>

definition byte_hex :: "nat \<Rightarrow> string" where
  "byte_hex b = [hex_digit (b div 16), hex_digit (b mod 16)]"

definition Buffer_toString_hex :: "nat list \<Rightarrow> string" where
  "Buffer_toString_hex bs = concat (map byte_hex bs)"

text \<open>
  \<^verbatim>\<open>Buffer.from(s, 'hex')\<close>: one byte per pair of hex digits, stopping at the first pair
  that is not two hex digits; a single trailing digit is dropped.
\<close>

fun Buffer_from_hex :: "string \<Rightarrow> nat list" where
  "Buffer_from_hex (a # b # rest) =
     (if is_hex_digit a \<and> is_hex_digit b
      then (16 * digit_value a + digit_value b) # Buffer_from_hex rest
      else [])"
| "Buffer_from_hex _ = []"

section \<open>HexUtils\<close>

text \<open>The pattern \<^verbatim>\<open>/^0x[0-9a-fA-F]+$/\<close>.\<close>

fun hex_pattern :: "string \<Rightarrow> bool" where
  "hex_pattern (a # b # ds) \<longleftrightarrow> a = CHR ''0'' \<and> b = CHR ''x'' \<and> ds \<noteq> [] \<and> list_all is_hex_digit ds"
| "hex_pattern _ \<longleftrightarrow> False"

text \<open>
  \<^verbatim>\<open>HexUtils.isHex(value)\<close> is \<^verbatim>\<open>/^0x[0-9a-fA-F]+$/.test(value)\<close>, and \<^verbatim>\<open>test\<close> converts its
  argument to a string first. The string form of a number, a bigint, a boolean,
  \<^verbatim>\<open>null\<close>, \<^verbatim>\<open>undefined\<close> or a plain object (\<^verbatim>\<open>[object Object]\<close>) never starts with \<^verbatim>\<open>0x\<close>.
  An array is joined with commas, \<^verbatim>\<open>null\<close> and \<^verbatim>\<open>undefined\<close> elements giving the empty
  string, so only a one-element array can match, through its element.
\<close>

fun isHex :: "jsvalue \<Rightarrow> bool" where
  "isHex (JString s) = hex_pattern s"
| "isHex (JArray [JUndefined]) = False"
| "isHex (JArray [JNull]) = False"
| "isHex (JArray [v]) = isHex v"
| "isHex _ = False"

section \<open>RLP\<close>

text \<open>\<^verbatim>\<open>static intToHex(value) { let hexValue = value.toString(16); return hexValue; }\<close>\<close>

definition intToHex :: "rat \<Rightarrow> string" where
  "intToHex v = toString16 v"

definition RLP_encodeNumber :: "rat \<Rightarrow> error + string" where
  "RLP_encodeNumber v =
     (if v < 0 then Inl (Error ''Cannot encode negative numbers'')
      else let hexValue = toString16 v in
        if v \<le> 0x7f then Inr (''0x'' @ hexValue)
        else Inr (''0x'' @ intToHex v))"

definition RLP_encodeString :: "string \<Rightarrow> string" where
  "RLP_encodeString v =
     (let buffer = Buffer_from_utf8 v in
      if length buffer = 1 \<and> buffer ! 0 \<le> 0x7f then ''0x'' @ Buffer_toString_hex buffer
      else ''0x'' @ intToHex (of_nat (length buffer)) @ Buffer_toString_hex buffer)"

text \<open>
  \<^verbatim>\<open>encode\<close> and \<^verbatim>\<open>encodeList\<close> call each other. \<open>RLP_encodeItems\<close> is
  \<^verbatim>\<open>value.map(item => this.encode(item).slice(2))\<close>: the first element that throws ends
  the whole call.
\<close>

fun RLP_encode :: "jsvalue \<Rightarrow> error + string"
  and RLP_encodeList :: "jsvalue list \<Rightarrow> error + string"
  and RLP_encodeItems :: "jsvalue list \<Rightarrow> error + string list" where
  "RLP_encode (JNumber v) = RLP_encodeNumber v"
| "RLP_encode (JString v) = Inr (RLP_encodeString v)"
| "RLP_encode (JArray v) = RLP_encodeList v"
| "RLP_encode _ = Inl (Error ''Unsupported type for RLP encoding'')"
| "RLP_encodeList v =
     (case RLP_encodeItems v of
        Inl e \<Rightarrow> Inl e
      | Inr encodedList \<Rightarrow>
          let listLength = of_nat (length (concat encodedList)) / 2;
              lengthPrefix = intToHex listLength
          in Inr (''0x'' @ lengthPrefix @ concat encodedList))"
| "RLP_encodeItems [] = Inr []"
| "RLP_encodeItems (item # items) =
     (case RLP_encode item of
        Inl e \<Rightarrow> Inl e
      | Inr h \<Rightarrow>
          (case RLP_encodeItems items of
             Inl e \<Rightarrow> Inl e
           | Inr hs \<Rightarrow> Inr (drop 2 h # hs)))"

text \<open>
  \<^verbatim>\<open>parseInt(s, 16)\<close>: leading white space is skipped, then an optional sign and an optional
  \<^verbatim>\<open>0x\<close>, and the longest run of hex digits is read. \<open>None\<close> is \<^verbatim>\<open>NaN\<close> (no digit to read).
  \<open>is_space\<close> holds for the white space and line ends of ASCII.
\<close>

definition is_space :: "char \<Rightarrow> bool" where
  "is_space c \<longleftrightarrow> (of_char c :: nat) \<in> {9, 10, 11, 12, 13, 32}"

definition parseInt16 :: "string \<Rightarrow> int option" where
  "parseInt16 s =
     (let s1 = dropWhile is_space s;
          neg = (s1 \<noteq> [] \<and> hd s1 = CHR ''-'');
          s2 = (if s1 \<noteq> [] \<and> (hd s1 = CHR ''-'' \<or> hd s1 = CHR ''+'') then tl s1 else s1);
          s3 = (if take 2 s2 = ''0x'' \<or> take 2 s2 = ''0X'' then drop 2 s2 else s2);
          ds = takeWhile is_hex_digit s3
      in if ds = [] then None
         else Some (if neg then - int (hex_value ds) else int (hex_value ds)))"

text \<open>
  \<^verbatim>\<open>s.slice(start, end)\<close> with integer arguments: a negative index counts from the end, both
  are clamped to the string, and the result is empty when the start is not before the end.
\<close>

definition slice :: "string \<Rightarrow> int \<Rightarrow> int \<Rightarrow> string" where
  "slice s start end =
     (let len = int (length s);
          from = (if start < 0 then max (len + start) 0 else min start len);
          to = (if end < 0 then max (len + end) 0 else min end len)
      in take (nat (to - from)) (drop (nat from) s))"

definition RLP_decodeString :: "string \<Rightarrow> string" where
  "RLP_decodeString hexString = Buffer_toString_utf8 (Buffer_from_hex hexString)"

text \<open>
  The \<^verbatim>\<open>while\<close> loop of \<^verbatim>\<open>decodeList\<close>, with \<^verbatim>\<open>index\<close> and \<^verbatim>\<open>list\<close> as its state. When the
  item length reads as \<^verbatim>\<open>NaN\<close>, the slice up to \<^verbatim>\<open>NaN\<close> is empty, \<^verbatim>\<open>index\<close> becomes \<^verbatim>\<open>NaN\<close>
  and the loop ends. A negative item length moves \<^verbatim>\<open>index\<close> backwards, so on input that is
  not made of hex digits the loop need not end: \<open>None\<close> is a run that does not return.
\<close>

partial_function (option) RLP_decodeList_loop :: "string \<Rightarrow> int \<Rightarrow> string list \<Rightarrow> string list option" where
  "RLP_decodeList_loop hexString index list =
     (if index < int (length hexString) then
        (case parseInt16 (slice hexString index (index + 2)) of
           None \<Rightarrow> Some (list @ [[]])
         | Some itemLength \<Rightarrow>
             RLP_decodeList_loop hexString (index + 2 + itemLength)
               (list @ [slice hexString (index + 2) (index + 2 + itemLength)]))
      else Some list)"

text \<open>The length field read before the loop is not used afterwards.\<close>

definition RLP_decodeList :: "string \<Rightarrow> string list option" where
  "RLP_decodeList hexString = RLP_decodeList_loop hexString 2 []"

datatype decoded = DecodedString string | DecodedList "string list"

text \<open>
  \<^verbatim>\<open>hexString[0]\<close> is the first character, or \<^verbatim>\<open>undefined\<close> when nothing follows the prefix;
  \<^verbatim>\<open>parseInt(undefined, 16)\<close> is \<^verbatim>\<open>NaN\<close>, and every comparison with \<^verbatim>\<open>NaN\<close> is false.
  The outer \<open>option\<close> is \<open>None\<close> when the call does not return.
\<close>

definition RLP_decode :: "string \<Rightarrow> (error + decoded) option" where
  "RLP_decode hexString0 =
     (if length hexString0 < 2
      then Some (Inl (Error ''Hex string must be at least 2 characters long''))
      else
        let hexString = drop 2 hexString0;
            firstByte = parseInt16 (take 1 hexString)
        in if (case firstByte of None \<Rightarrow> False | Some b \<Rightarrow> b \<le> 0x7f)
           then Some (Inr (DecodedString (RLP_decodeString hexString)))
           else if (case firstByte of None \<Rightarrow> False | Some b \<Rightarrow> b \<ge> 0xc0)
           then map_option (\<lambda>l. Inr (DecodedList l)) (RLP_decodeList hexString)
           else Some (Inl (Error ''Unsupported RLP format'')))"

section \<open>ABIUtils\<close>

subsection \<open>Host conversions\<close>

text \<open>
  \<^verbatim>\<open>BigInt(value)\<close>. A string is trimmed and read as a decimal literal with an optional
  sign, or as an unsigned \<^verbatim>\<open>0x\<close>, \<^verbatim>\<open>0o\<close> or \<^verbatim>\<open>0b\<close> literal; the empty string is zero. A number
  must be an integer. An array or object is converted through its string form, which the
  embedding does not follow.
\<close>

definition radix_digits :: "nat \<Rightarrow> string \<Rightarrow> bool" where
  "radix_digits b ds \<longleftrightarrow> ds \<noteq> [] \<and> list_all (\<lambda>c. is_hex_digit c \<and> digit_value c < b) ds"

definition radix_value :: "nat \<Rightarrow> string \<Rightarrow> nat" where
  "radix_value b ds = foldl (\<lambda>acc c. b * acc + digit_value c) 0 ds"

definition trim :: "string \<Rightarrow> string" where
  "trim s = rev (dropWhile is_space (rev (dropWhile is_space s)))"

definition StringToBigInt :: "string \<Rightarrow> int option" where
  "StringToBigInt s =
     (let t = trim s; p = take 2 t; r = drop 2 t in
      if t = [] then Some 0
      else if p = ''0x'' \<or> p = ''0X'' then
        (if radix_digits 16 r then Some (int (radix_value 16 r)) else None)
      else if p = ''0o'' \<or> p = ''0O'' then
        (if radix_digits 8 r then Some (int (radix_value 8 r)) else None)
      else if p = ''0b'' \<or> p = ''0B'' then
        (if radix_digits 2 r then Some (int (radix_value 2 r)) else None)
      else if hd t = CHR ''-'' then
        (if radix_digits 10 (tl t) then Some (- int (radix_value 10 (tl t))) else None)
      else if hd t = CHR ''+'' then
        (if radix_digits 10 (tl t) then Some (int (radix_value 10 (tl t))) else None)
      else (if radix_digits 10 t then Some (int (radix_value 10 t)) else None))"

fun BigInt :: "jsvalue \<Rightarrow> error + int" where
  "BigInt (JBigInt n) = Inr n"
| "BigInt (JNumber x) = (if of_int \<lfloor>x\<rfloor> = x then Inr \<lfloor>x\<rfloor> else Inl RangeError)"
| "BigInt (JBool b) = Inr (if b then 1 else 0)"
| "BigInt (JString s) = (case StringToBigInt s of None \<Rightarrow> Inl SyntaxError | Some n \<Rightarrow> Inr n)"
| "BigInt JUndefined = Inl TypeError"
| "BigInt JNull = Inl TypeError"
| "BigInt (JArray _) = Inl NotModelled"
| "BigInt (JObject _) = Inl NotModelled"

text \<open>
  \<^verbatim>\<open>Buffer.from(value, 'utf8')\<close> on any value: a string gives its bytes; a number, bigint,
  boolean, \<^verbatim>\<open>null\<close> or \<^verbatim>\<open>undefined\<close> is rejected with a \<^verbatim>\<open>TypeError\<close>; an array or object is
  read element by element, which the embedding does not follow.
\<close>

fun Buffer_from :: "jsvalue \<Rightarrow> error + nat list" where
  "Buffer_from (JString s) = Inr (Buffer_from_utf8 s)"
| "Buffer_from (JArray _) = Inl NotModelled"
| "Buffer_from (JObject _) = Inl NotModelled"
| "Buffer_from _ = Inl TypeError"

text \<open>The truth value of a value in a condition.\<close>

fun truthy :: "jsvalue \<Rightarrow> bool" where
  "truthy JUndefined = False"
| "truthy JNull = False"
| "truthy (JBool b) = b"
| "truthy (JNumber x) = (x \<noteq> 0)"
| "truthy (JBigInt n) = (n \<noteq> 0)"
| "truthy (JString s) = (s \<noteq> [])"
| "truthy (JArray _) = True"
| "truthy (JObject _) = True"

subsection \<open>Encoding\<close>

definition ABIUtils_encodeUInt256 :: "jsvalue \<Rightarrow> error + string" where
  "ABIUtils_encodeUInt256 v =
     (case BigInt v of
        Inl e \<Rightarrow> Inl e
      | Inr bigIntValue \<Rightarrow>
          if bigIntValue < 0 then Inl (Error ''Value must be a positive integer'')
          else Inr (padStart 64 CHR ''0'' (bigint_toString16 bigIntValue)))"

definition ABIUtils_encodeString :: "jsvalue \<Rightarrow> error + string" where
  "ABIUtils_encodeString v =
     (case Buffer_from v of
        Inl e \<Rightarrow> Inl e
      | Inr buf \<Rightarrow> let hexValue = Buffer_toString_hex buf in Inr (padStart 64 CHR ''0'' hexValue))"

definition ABIUtils_encodeBool :: "jsvalue \<Rightarrow> string" where
  "ABIUtils_encodeBool v =
     (if truthy v then ''0000000000000000000000000000000000000000000000000000000000000001''
      else ''0000000000000000000000000000000000000000000000000000000000000000'')"

text \<open>
  \<^verbatim>\<open>if (!isHex(address) || address.length !== 42) throw \<dots>\<close>. A value other than a string
  never passes: \<open>isHex\<close> holds only for a one-element array, whose length is not 42.
\<close>

fun ABIUtils_encodeAddress :: "jsvalue \<Rightarrow> error + string" where
  "ABIUtils_encodeAddress (JString address) =
     (if \<not> isHex (JString address) \<or> length address \<noteq> 42
      then Inl (Error ''Invalid Quantova address'')
      else Inr (padStart 64 CHR ''0'' (drop 2 address)))"
| "ABIUtils_encodeAddress _ = Inl (Error ''Invalid Quantova address'')"

text \<open>
  \<^verbatim>\<open>value.length\<close> is read first: on \<^verbatim>\<open>null\<close> and \<^verbatim>\<open>undefined\<close> that is a \<^verbatim>\<open>TypeError\<close>; a number,
  bigint or boolean has no length; an array has its element count and an object its
  \<^verbatim>\<open>length\<close> property, if any. An array of 64 elements and a plain object are not hex.
\<close>

fun ABIUtils_encodeBytes32 :: "jsvalue \<Rightarrow> error + string" where
  "ABIUtils_encodeBytes32 (JString v) =
     (if length v \<noteq> 64 then Inl (Error ''Value must be 32 bytes (64 hex characters)'')
      else if \<not> isHex (JString v) then Inl (Error ''Value must be a valid hex string'')
      else Inr v)"
| "ABIUtils_encodeBytes32 JUndefined = Inl TypeError"
| "ABIUtils_encodeBytes32 JNull = Inl TypeError"
| "ABIUtils_encodeBytes32 (JArray vs) =
     (if length vs \<noteq> 64 then Inl (Error ''Value must be 32 bytes (64 hex characters)'')
      else Inl (Error ''Value must be a valid hex string''))"
| "ABIUtils_encodeBytes32 (JObject kvs) =
     (if map_of kvs ''length'' \<noteq> Some (JNumber 64)
      then Inl (Error ''Value must be 32 bytes (64 hex characters)'')
      else Inl (Error ''Value must be a valid hex string''))"
| "ABIUtils_encodeBytes32 _ = Inl (Error ''Value must be 32 bytes (64 hex characters)'')"

fun ABIUtils_encodeBytes :: "jsvalue \<Rightarrow> error + string" where
  "ABIUtils_encodeBytes (JString v) =
     (if typeof (JString v) \<noteq> ''string'' \<or> \<not> isHex (JString v)
      then Inl (Error ''Value must be a hex string'')
      else Inr (padStart 64 CHR ''0'' v))"
| "ABIUtils_encodeBytes _ = Inl (Error ''Value must be a hex string'')"

definition ABIUtils_encodeParameter :: "string \<Rightarrow> jsvalue \<Rightarrow> error + string" where
  "ABIUtils_encodeParameter type v =
     (if type = ''uint256'' then ABIUtils_encodeUInt256 v
      else if type = ''string'' then ABIUtils_encodeString v
      else if type = ''bool'' then Inr (ABIUtils_encodeBool v)
      else if type = ''address'' then ABIUtils_encodeAddress v
      else if type = ''bytes32'' then ABIUtils_encodeBytes32 v
      else if type = ''bytes'' then ABIUtils_encodeBytes v
      else Inl (Error (''Unsupported ABI type: '' @ type)))"

subsection \<open>Decoding\<close>

definition ABIUtils_decodeUInt256 :: "string \<Rightarrow> error + jsvalue" where
  "ABIUtils_decodeUInt256 encodedValue =
     (case BigInt (JString (''0x'' @ encodedValue)) of
        Inl e \<Rightarrow> Inl e
      | Inr n \<Rightarrow> Inr (JBigInt n))"

text \<open>\<^verbatim>\<open>.replace(/\0/g, '')\<close> removes every NUL character of the decoded text.\<close>

definition ABIUtils_decodeString :: "string \<Rightarrow> jsvalue" where
  "ABIUtils_decodeString encodedValue =
     (let buffer = Buffer_from_hex encodedValue
      in JString (filter (\<lambda>c. c \<noteq> CHR 0x00) (Buffer_toString_utf8 buffer)))"

definition ABIUtils_decodeBool :: "string \<Rightarrow> jsvalue" where
  "ABIUtils_decodeBool encodedValue =
     JBool (encodedValue = ''0000000000000000000000000000000000000000000000000000000000000001'')"

definition ABIUtils_decodeAddress :: "string \<Rightarrow> jsvalue" where
  "ABIUtils_decodeAddress encodedValue = JString (''0x'' @ drop 24 encodedValue)"

definition ABIUtils_decodeBytes32 :: "string \<Rightarrow> jsvalue" where
  "ABIUtils_decodeBytes32 encodedValue = JString encodedValue"

definition ABIUtils_decodeBytes :: "string \<Rightarrow> jsvalue" where
  "ABIUtils_decodeBytes encodedValue = JString encodedValue"

definition ABIUtils_decodeParameter :: "string \<Rightarrow> string \<Rightarrow> error + jsvalue" where
  "ABIUtils_decodeParameter type encodedValue =
     (if type = ''uint256'' then ABIUtils_decodeUInt256 encodedValue
      else if type = ''string'' then Inr (ABIUtils_decodeString encodedValue)
      else if type = ''bool'' then Inr (ABIUtils_decodeBool encodedValue)
      else if type = ''address'' then Inr (ABIUtils_decodeAddress encodedValue)
      else if type = ''bytes32'' then Inr (ABIUtils_decodeBytes32 encodedValue)
      else if type = ''bytes'' then Inr (ABIUtils_decodeBytes encodedValue)
      else Inl (Error (''Unsupported ABI type: '' @ type)))"

subsection \<open>Decoding what was encoded\<close>

text \<open>\<^verbatim>\<open>decodeParameter(type, encodeParameter(type, value))\<close>, with the first error thrown.\<close>

definition decode_encode :: "string \<Rightarrow> jsvalue \<Rightarrow> error + jsvalue" where
  "decode_encode type v =
     (case ABIUtils_encodeParameter type v of
        Inl e \<Rightarrow> Inl e
      | Inr word \<Rightarrow> ABIUtils_decodeParameter type word)"

section \<open>JSONUtils\<close>

fun JSONUtils_getType :: "jsvalue \<Rightarrow> error + string" where
  "JSONUtils_getType v =
     (if typeof v = ''number'' then Inr ''uint256''
      else if typeof v = ''string'' then Inr ''string''
      else if typeof v = ''boolean'' then Inr ''bool''
      else if isArray v then Inr ''bytes[]''
      else if isHex v then Inr ''bytes32''
      else Inl (Error ''Unsupported type''))"

text \<open>
  The body shared by \<^verbatim>\<open>encodeArray\<close> and \<^verbatim>\<open>encodeObject\<close>: for each value in turn,
  \<^verbatim>\<open>encoded += ABIUtils.encodeParameter(this.getType(item), item)\<close>.
\<close>

fun JSONUtils_encodeEach :: "jsvalue list \<Rightarrow> string \<Rightarrow> error + string" where
  "JSONUtils_encodeEach [] encoded = Inr encoded"
| "JSONUtils_encodeEach (item # items) encoded =
     (case JSONUtils_getType item of
        Inl e \<Rightarrow> Inl e
      | Inr type \<Rightarrow>
          (case ABIUtils_encodeParameter type item of
             Inl e \<Rightarrow> Inl e
           | Inr word \<Rightarrow> JSONUtils_encodeEach items (encoded @ word)))"

definition JSONUtils_encodeArray :: "jsvalue list \<Rightarrow> error + string" where
  "JSONUtils_encodeArray v = JSONUtils_encodeEach v []"

text \<open>
  \<^verbatim>\<open>for (const key in value)\<close> visits the own enumerable properties: the entries of an
  object, the elements of an array, the characters of a string, and nothing for
  \<^verbatim>\<open>null\<close>, \<^verbatim>\<open>undefined\<close>, a number, a bigint or a boolean.
\<close>

fun JSONUtils_encodeObject :: "jsvalue \<Rightarrow> error + string" where
  "JSONUtils_encodeObject (JObject kvs) = JSONUtils_encodeEach (map snd kvs) []"
| "JSONUtils_encodeObject (JArray vs) = JSONUtils_encodeEach vs []"
| "JSONUtils_encodeObject (JString s) = JSONUtils_encodeEach (map (\<lambda>c. JString [c]) s) []"
| "JSONUtils_encodeObject _ = Inr []"

fun JSONUtils_encodeJSON :: "jsvalue \<Rightarrow> error + string" where
  "JSONUtils_encodeJSON (JArray v) = JSONUtils_encodeArray v"
| "JSONUtils_encodeJSON v =
     (if typeof v = ''object'' then JSONUtils_encodeObject v
      else Inl (Error ''Value must be an object or an array''))"

section \<open>Hex digits and number conversions\<close>

lemma digits_table:
  "list_all (\<lambda>d. digit_value (hex_digit d) = d \<and> is_hex_digit (hex_digit d)
      \<and> (hex_digit d = CHR ''0'' \<longleftrightarrow> d = 0)) [0..<16]"
  by code_simp

lemma digit_value_hex_digit: "d < 16 \<Longrightarrow> digit_value (hex_digit d) = d"
  using digits_table by (simp add: list_all_iff)

lemma hex_digit_is_hex: "d < 16 \<Longrightarrow> is_hex_digit (hex_digit d)"
  using digits_table by (simp add: list_all_iff)

lemma hex_digit_zero_iff: "d < 16 \<Longrightarrow> hex_digit d = CHR ''0'' \<longleftrightarrow> d = 0"
  using digits_table by (simp add: list_all_iff)

lemma hex_value_snoc: "hex_value (ds @ [c]) = 16 * hex_value ds + digit_value c"
  by (simp add: hex_value_def)

lemma hex_value_hex_of_nat: "hex_value (hex_of_nat n) = n"
proof (induction n rule: hex_of_nat.induct)
  case (1 n)
  show ?case
  proof (cases "n < 16")
    case True
    then show ?thesis
      by (simp add: hex_of_nat.simps [of n] hex_value_def digit_value_hex_digit)
  next
    case False
    with 1 show ?thesis
      by (simp add: hex_of_nat.simps [of n] hex_value_snoc digit_value_hex_digit)
  qed
qed

lemma hex_of_nat_not_Nil: "hex_of_nat n \<noteq> []"
  by (subst hex_of_nat.simps) simp

lemma hd_hex_of_nat: "0 < n \<Longrightarrow> hd (hex_of_nat n) \<noteq> CHR ''0''"
proof (induction n rule: hex_of_nat.induct)
  case (1 n)
  show ?case
  proof (cases "n < 16")
    case True
    with 1 show ?thesis
      by (simp add: hex_of_nat.simps [of n] hex_digit_zero_iff)
  next
    case False
    then have "0 < n div 16" by simp
    with 1 False show ?thesis
      by (simp add: hex_of_nat.simps [of n] hex_of_nat_not_Nil)
  qed
qed

lemma length_hex_of_nat_small: "n < 256 \<Longrightarrow> length (hex_of_nat n) = (if n < 16 then 1 else 2)"
  by (simp add: hex_of_nat.simps [of n] hex_of_nat.simps [of "n div 16"] div_less_iff_less_mult)

lemma toString16_of_nat: "toString16 (of_nat n) = hex_of_nat n"
  by (simp add: toString16_def)

lemma list_all_hex_of_nat: "list_all is_hex_digit (hex_of_nat n)"
proof (induction n rule: hex_of_nat.induct)
  case (1 n)
  show ?case
  proof (cases "n < 16")
    case True
    then show ?thesis
      by (simp add: hex_of_nat.simps [of n] hex_digit_is_hex)
  next
    case False
    with 1 show ?thesis
      by (simp add: hex_of_nat.simps [of n] hex_digit_is_hex)
  qed
qed

lemma is_hex_digit_cases:
  "is_hex_digit c \<Longrightarrow> c \<in> set ''0123456789abcdefABCDEF''"
  by (simp add: is_hex_digit_def)

lemma hex_chars_table:
  "list_all (\<lambda>c. digit_value c < 16 \<and> \<not> is_space c \<and> c \<noteq> CHR ''-'' \<and> c \<noteq> CHR ''+''
      \<and> c \<noteq> CHR ''x'' \<and> c \<noteq> CHR ''X'' \<and> c \<noteq> CHR ''.'')
     ''0123456789abcdefABCDEF''"
  by code_simp

lemma hex_char_props:
  assumes "is_hex_digit c"
  shows "digit_value c < 16" and "\<not> is_space c" and "c \<noteq> CHR ''-''" and "c \<noteq> CHR ''+''"
    and "c \<noteq> CHR ''x''" and "c \<noteq> CHR ''X''"
  using hex_chars_table is_hex_digit_cases [OF assms] by (auto simp only: list_all_iff)

lemma hex_value_single: "hex_value [c] = digit_value c"
  by (simp add: hex_value_def)

lemma parseInt16_single:
  assumes "is_hex_digit c"
  shows "parseInt16 [c] = Some (int (digit_value c))"
  using hex_char_props [OF assms] assms
  by (simp add: parseInt16_def Let_def hex_value_single)

lemma length_hex_of_nat_le: "0 < k \<Longrightarrow> length (hex_of_nat n) \<le> k \<longleftrightarrow> n < 16 ^ k"
proof (induction n arbitrary: k rule: hex_of_nat.induct)
  case (1 n)
  show ?case
  proof (cases "n < 16")
    case True
    have "(16::nat) ^ 1 \<le> 16 ^ k" using 1(2) by (intro power_increasing) simp_all
    with True have "n < 16 ^ k" by simp
    with True 1(2) show ?thesis by (simp add: hex_of_nat.simps [of n])
  next
    case False
    show ?thesis
    proof (cases k)
      case 0
      with 1(2) show ?thesis by simp
    next
      case (Suc j)
      show ?thesis
      proof (cases "j = 0")
        case True
        with Suc False show ?thesis
          using hex_of_nat_not_Nil [of "n div 16"]
          by (simp add: hex_of_nat.simps [of n] Suc_le_eq)
      next
        case j: False
        with 1(1) [OF False, of j] have "length (hex_of_nat (n div 16)) \<le> j \<longleftrightarrow> n div 16 < 16 ^ j"
          by simp
        with False Suc show ?thesis
          by (simp add: hex_of_nat.simps [of n] div_less_iff_less_mult mult.commute)
      qed
    qed
  qed
qed

lemma length_hex_of_nat_word: "length (hex_of_nat n) \<le> 64 \<longleftrightarrow> n < 2 ^ 256"
proof -
  have "(16::nat) ^ 64 = 2 ^ 256" by simp
  with length_hex_of_nat_le [of 64 n] show ?thesis by simp
qed

lemma length_padStart: "length (padStart n c s) = max n (length s)"
  by (simp add: padStart_def)

lemma length_byte_hex: "length (byte_hex b) = 2"
  by (simp add: byte_hex_def)

lemma length_Buffer_toString_hex: "length (Buffer_toString_hex bs) = 2 * length bs"
  by (induction bs) (simp_all add: Buffer_toString_hex_def length_byte_hex)

lemma hex_of_nat_16_pow: "hex_of_nat (16 ^ k) = CHR ''1'' # replicate k CHR ''0''"
proof (induction k)
  case 0
  show ?case by (simp add: hex_of_nat.simps [of "Suc 0"] hex_digit_def)
next
  case (Suc k)
  have "\<not> (16::nat) ^ Suc k < 16" by simp
  then have "hex_of_nat (16 ^ Suc k) = hex_of_nat (16 ^ k) @ [hex_digit 0]"
    by (subst hex_of_nat.simps) simp
  with Suc show ?case
    by (simp add: hex_digit_def replicate_append_same)
qed

lemma toString16_fraction:
  assumes "0 \<le> x" and "x \<notin> \<int>"
  shows "CHR ''.'' \<in> set (toString16 x)"
proof -
  from assms(2) have "x - of_int \<lfloor>x\<rfloor> \<noteq> 0"
    by (metis Ints_of_int eq_iff_diff_eq_0)
  with assms(1) show ?thesis
    by (simp add: toString16_def Let_def)
qed

lemma half_odd_not_int: "odd k \<Longrightarrow> (of_nat k / 2 :: rat) \<notin> \<int>"
proof
  assume "odd k" and "(of_nat k / 2 :: rat) \<in> \<int>"
  then obtain z :: int where "(of_nat k / 2 :: rat) = of_int z"
    by (auto elim: Ints_cases)
  then have "(of_nat k :: rat) = of_int (2 * z)" by simp
  then have "(of_int (int k) :: rat) = of_int (2 * z)" by simp
  then have "int k = 2 * z" by (simp only: of_int_eq_iff)
  with \<open>odd k\<close> show False by presburger
qed

lemma dot_not_hex: "\<not> is_hex_digit CHR ''.''"
  by (simp add: is_hex_digit_def)

lemma hex_pattern_no_dot: "CHR ''.'' \<in> set s \<Longrightarrow> \<not> hex_pattern (''0x'' @ s)"
  using dot_not_hex by (auto simp: list_all_iff)

lemma hex_pattern_shape:
  assumes "hex_pattern s"
  obtains ds where "s = ''0x'' @ ds" and "ds \<noteq> []" and "list_all is_hex_digit ds"
  using assms by (cases s rule: hex_pattern.cases) auto

lemma x_not_hex: "\<not> is_hex_digit CHR ''x''"
  by (simp add: is_hex_digit_def)

lemma hex_digits_not_pattern:
  assumes "list_all is_hex_digit w"
  shows "\<not> hex_pattern w"
proof
  assume "hex_pattern w"
  then obtain ds where "w = ''0x'' @ ds" by (rule hex_pattern_shape)
  with assms x_not_hex show False by simp
qed

section \<open>Buffers and host conversions\<close>

lemma byte_digits:
  assumes "b < 256"
  shows "is_hex_digit (hex_digit (b div 16))" and "is_hex_digit (hex_digit (b mod 16))"
    and "16 * digit_value (hex_digit (b div 16)) + digit_value (hex_digit (b mod 16)) = b"
proof -
  from assms have d: "b div 16 < 16" by (simp add: div_less_iff_less_mult)
  have m: "b mod 16 < 16" by simp
  from d show "is_hex_digit (hex_digit (b div 16))" by (rule hex_digit_is_hex)
  from m show "is_hex_digit (hex_digit (b mod 16))" by (rule hex_digit_is_hex)
  from d m show "16 * digit_value (hex_digit (b div 16)) + digit_value (hex_digit (b mod 16)) = b"
    by (simp add: digit_value_hex_digit)
qed

lemma Buffer_from_hex_byte:
  "b < 256 \<Longrightarrow> Buffer_from_hex (byte_hex b @ rest) = b # Buffer_from_hex rest"
  by (simp add: byte_hex_def byte_digits)

lemma Buffer_from_hex_toString:
  "\<forall>b \<in> set bs. b < 256 \<Longrightarrow>
     Buffer_from_hex (Buffer_toString_hex bs @ rest) = bs @ Buffer_from_hex rest"
  by (induction bs) (simp_all add: Buffer_toString_hex_def Buffer_from_hex_byte)

lemma zero_is_hex: "is_hex_digit CHR ''0''" and zero_value: "digit_value CHR ''0'' = 0"
  by (simp_all add: is_hex_digit_def digit_value_def)

lemma Buffer_from_hex_zeros:
  "Buffer_from_hex (replicate (2 * k) CHR ''0'' @ rest) = replicate k 0 @ Buffer_from_hex rest"
  by (induction k) (simp_all add: zero_is_hex zero_value)

lemma Buffer_from_utf8_bytes: "\<forall>b \<in> set (Buffer_from_utf8 s). b < 256"
proof -
  have "(of_char c :: nat) < 256" for c
    by (metis of_char_mod_256 mod_less_divisor zero_less_numeral)
  then show ?thesis by (simp add: Buffer_from_utf8_def)
qed

lemma Buffer_toString_from_utf8: "Buffer_toString_utf8 (Buffer_from_utf8 s) = s"
  by (simp add: Buffer_toString_utf8_def Buffer_from_utf8_def comp_def)

lemma Buffer_toString_utf8_append:
  "Buffer_toString_utf8 (as @ bs) = Buffer_toString_utf8 as @ Buffer_toString_utf8 bs"
  by (simp add: Buffer_toString_utf8_def)

lemma char_of_zero: "char_of (0::nat) = CHR 0x00"
  by code_simp

lemma Buffer_toString_utf8_zeros: "Buffer_toString_utf8 (replicate k 0) = replicate k (CHR 0x00)"
  by (simp add: Buffer_toString_utf8_def char_of_zero)

lemma padStart_hex_buffer:
  "Buffer_from_hex (padStart 64 CHR ''0'' (Buffer_toString_hex bs))
     = Buffer_from_hex (replicate (2 * (32 - length bs)) CHR ''0'' @ Buffer_toString_hex bs)"
proof -
  have "64 - 2 * length bs = 2 * (32 - length bs)" by simp
  then show ?thesis by (simp add: padStart_def length_Buffer_toString_hex)
qed

lemma hex_value_zeros: "hex_value (replicate k CHR ''0'' @ ds) = hex_value ds"
proof -
  have "foldl (\<lambda>acc c. 16 * acc + digit_value c) 0 (replicate k CHR ''0'') = 0"
    by (induction k) (simp_all add: zero_value)
  then show ?thesis by (simp add: hex_value_def)
qed

lemma radix_value_16: "radix_value 16 ds = hex_value ds"
  by (simp add: radix_value_def hex_value_def)

lemma radix_digits_16: "radix_digits 16 ds \<longleftrightarrow> ds \<noteq> [] \<and> list_all is_hex_digit ds"
  using hex_char_props(1) by (auto simp: radix_digits_def list_all_iff)

lemma trim_id:
  assumes "s \<noteq> []" and "\<not> is_space (hd s)" and "\<not> is_space (last s)"
  shows "trim s = s"
proof -
  from assms have "dropWhile is_space s = s" by (cases s) simp_all
  moreover from assms have "dropWhile is_space (rev s) = rev s"
    by (cases "rev s") (simp_all add: last_rev [symmetric] hd_rev del: last_rev)
  ultimately show ?thesis by (simp add: trim_def)
qed

lemma StringToBigInt_hex:
  assumes "ds \<noteq> []" and "list_all is_hex_digit ds"
  shows "StringToBigInt (''0x'' @ ds) = Some (int (hex_value ds))"
proof -
  from assms have "is_hex_digit (last ds)" by (simp add: list_all_iff)
  then have "\<not> is_space (last ds)" by (rule hex_char_props)
  moreover have "\<not> is_space CHR ''0''" by (simp add: is_space_def)
  ultimately have "trim (''0x'' @ ds) = ''0x'' @ ds"
    using assms(1) by (intro trim_id) simp_all
  with assms show ?thesis
    by (simp add: StringToBigInt_def radix_digits_16 radix_value_16)
qed

lemma padStart_long: "n \<le> length s \<Longrightarrow> padStart n c s = s"
  by (simp add: padStart_def)

section \<open>RLP: properties\<close>

text \<open>
  Claim C7. For every integer \<open>n\<close> with \<open>0 \<le> n \<le> 127\<close>, \<^verbatim>\<open>RLP.encode(n)\<close> is \<^verbatim>\<open>0x\<close> followed by
  the hex digits of \<open>n\<close> and nothing else: the digits read back as \<open>n\<close>, there is one digit
  below 16 and two from 16 on, and no leading zero. In particular \<^verbatim>\<open>RLP.encode(123)\<close> is
  \<^verbatim>\<open>0x7b\<close>.
\<close>

theorem RLP_encode_small_number:
  "n \<le> 127 \<Longrightarrow>
     RLP_encode (JNumber (of_nat n)) = Inr (''0x'' @ hex_of_nat n)
     \<and> hex_value (hex_of_nat n) = n
     \<and> list_all is_hex_digit (hex_of_nat n)
     \<and> length (hex_of_nat n) = (if n < 16 then 1 else 2)
     \<and> (0 < n \<longrightarrow> hd (hex_of_nat n) \<noteq> CHR ''0'')"
proof -
  assume n: "n \<le> 127"
  then have "(of_nat n :: rat) \<le> of_nat 127" by (simp only: of_nat_le_iff)
  then have "(of_nat n :: rat) \<le> 127" by simp
  then have "RLP_encode (JNumber (of_nat n)) = Inr (''0x'' @ hex_of_nat n)"
    by (simp add: RLP_encodeNumber_def toString16_of_nat)
  moreover from n have "length (hex_of_nat n) = (if n < 16 then 1 else 2)"
    by (intro length_hex_of_nat_small) simp
  ultimately show ?thesis
    by (simp add: hex_value_hex_of_nat list_all_hex_of_nat hd_hex_of_nat)
qed

theorem RLP_encode_small_number_witness:
  "(123::nat) \<le> 127 \<and> RLP_encode (JNumber 123) = Inr ''0x7b''"
  using RLP_encode_small_number [of 123]
  by (simp add: hex_of_nat.simps hex_digit_def)

text \<open>
  Claim C9. When the encodings of a list's elements, prefixes removed, have an odd number
  of hex digits together, the byte count \<^verbatim>\<open>length / 2\<close> is not an integer, and \<^verbatim>\<open>RLP.encode\<close>
  returns \<^verbatim>\<open>0x\<close>, the hex form of that fraction and the element digits: a string that
  contains a point and does not match the hex pattern. A list of one integer below 16
  is such a list: its encoding is \<^verbatim>\<open>0x0.8\<close> followed by the digit, \<^verbatim>\<open>0x0.85\<close> for \<^verbatim>\<open>[5]\<close>.
\<close>

theorem RLP_encodeList_odd_digits:
  "(RLP_encodeItems items = Inr encodedList \<and> odd (length (concat encodedList)) \<longrightarrow>
      (of_nat (length (concat encodedList)) / 2 :: rat) \<notin> \<int>
      \<and> (\<exists>out. RLP_encode (JArray items) = Inr out
            \<and> out = ''0x'' @ intToHex (of_nat (length (concat encodedList)) / 2) @ concat encodedList
            \<and> CHR ''.'' \<in> set out \<and> \<not> hex_pattern out))
   \<and> (n < 16 \<longrightarrow> RLP_encode (JArray [JNumber (of_nat n)]) = Inr (''0x0.8'' @ [hex_digit n]))"
proof (intro conjI impI)
  assume a: "RLP_encodeItems items = Inr encodedList \<and> odd (length (concat encodedList))"
  let ?r = "of_nat (length (concat encodedList)) / 2 :: rat"
  from a show frac: "?r \<notin> \<int>" by (simp add: half_odd_not_int)
  have "0 \<le> ?r" by simp
  then have dot: "CHR ''.'' \<in> set (intToHex ?r)"
    unfolding intToHex_def using frac by (rule toString16_fraction)
  let ?out = "''0x'' @ intToHex ?r @ concat encodedList"
  from a have "RLP_encode (JArray items) = Inr ?out" by (simp add: Let_def)
  moreover from dot have "CHR ''.'' \<in> set ?out" by simp
  moreover from dot have "\<not> hex_pattern ?out"
    using hex_pattern_no_dot [of "intToHex ?r @ concat encodedList"] by simp
  ultimately show "\<exists>out. RLP_encode (JArray items) = Inr out \<and> out = ?out
      \<and> CHR ''.'' \<in> set out \<and> \<not> hex_pattern out"
    by blast
next
  assume n: "n < 16"
  then have "n \<le> 127" by simp
  then have "(of_nat n :: rat) \<le> of_nat 127" by (simp only: of_nat_le_iff)
  then have le: "(of_nat n :: rat) \<le> 127" by simp
  from n have h: "hex_of_nat n = [hex_digit n]" by (simp add: hex_of_nat.simps [of n])
  have half: "toString16 (1 / 2) = ''0.8''" by code_simp
  from le h show "RLP_encode (JArray [JNumber (of_nat n)]) = Inr (''0x0.8'' @ [hex_digit n])"
    by (simp add: RLP_encodeNumber_def toString16_of_nat intToHex_def half)
qed

theorem RLP_encodeList_odd_digits_witness:
  "RLP_encodeItems [JNumber 5] = Inr [''5''] \<and> odd (length (concat [''5'']))
   \<and> (5::nat) < 16
   \<and> RLP_encode (JArray [JNumber 5]) = Inr ''0x0.85''
   \<and> CHR ''.'' \<in> set ''0x0.85'' \<and> \<not> hex_pattern ''0x0.85''"
proof -
  have enc: "RLP_encodeItems [JNumber 5] = Inr [''5'']" by code_simp
  have odd5: "odd (length (concat [''5'']))" by simp
  from RLP_encodeList_odd_digits [of "[JNumber 5]" "[''5'']" 5] enc odd5
  have "RLP_encode (JArray [JNumber 5]) = Inr (''0x0.8'' @ [hex_digit 5])"
    and "\<exists>out. RLP_encode (JArray [JNumber 5]) = Inr out \<and> CHR ''.'' \<in> set out \<and> \<not> hex_pattern out"
    by auto
  then show ?thesis using enc
    by (auto simp: hex_digit_def)
qed

lemma RLP_decode_hex:
  assumes "hex_pattern s"
  shows "RLP_decode s = Some (Inr (DecodedString (RLP_decodeString (drop 2 s))))"
proof -
  from assms obtain d ds where s: "s = CHR ''0'' # CHR ''x'' # d # ds" and d: "is_hex_digit d"
    by (cases s rule: hex_pattern.cases) (auto simp: neq_Nil_conv)
  from d have "digit_value d < 16" by (rule hex_char_props)
  then have "int (digit_value d) \<le> 127" by simp
  with d show ?thesis
    by (simp add: RLP_decode_def s parseInt16_single)
qed

lemma parseInt16_short:
  assumes "length s \<le> 1" and "parseInt16 s = Some b"
  shows "b < 16"
proof (cases s)
  case Nil
  with assms(2) show ?thesis by (simp add: parseInt16_def)
next
  case (Cons c cs)
  with assms(1) have s: "s = [c]" by simp
  show ?thesis
  proof (cases "is_hex_digit c")
    case True
    then have "digit_value c < 16" by (rule hex_char_props)
    with True assms(2) show ?thesis by (simp add: s parseInt16_single)
  next
    case False
    with assms(2) show ?thesis
      by (simp add: s parseInt16_def Let_def split: if_splits)
  qed
qed

lemma RLP_decode_not_list: "RLP_decode t \<noteq> Some (Inr (DecodedList l))"
proof
  assume a: "RLP_decode t = Some (Inr (DecodedList l))"
  let ?first = "parseInt16 (take 1 (drop 2 t))"
  from a obtain b where b: "?first = Some b" and "192 \<le> b"
    by (auto simp: RLP_decode_def Let_def split: if_splits option.splits)
  from b have "b < 16" by (intro parseInt16_short [of "take 1 (drop 2 t)"]) simp_all
  with \<open>192 \<le> b\<close> show False by simp
qed

text \<open>
  Claim C1. The claim has \<^verbatim>\<open>RLP.decode\<close> read the first two hex digits as a byte and hand
  every input whose leading byte is \<^verbatim>\<open>0xc0\<close> or more to \<^verbatim>\<open>decodeList\<close>, and fail on a leading
  byte between \<^verbatim>\<open>0x7f\<close> and \<^verbatim>\<open>0xc0\<close>. The code reads \<^verbatim>\<open>hexString[0]\<close>, one digit, whose value is
  at most 15. So for every input that matches the hex pattern \<^verbatim>\<open>decode\<close> returns
  \<^verbatim>\<open>decodeString\<close> of the text after the prefix, and on no input at all does it return a
  list. At \<^verbatim>\<open>0xc3a9\<close> the result is the two-byte text \<^verbatim>\<open>c3 a9\<close>; at \<^verbatim>\<open>0x80\<close> it is a string as well.
\<close>

theorem RLP_decode_reads_one_digit:
  "(hex_pattern s \<longrightarrow> RLP_decode s = Some (Inr (DecodedString (RLP_decodeString (drop 2 s)))))
   \<and> RLP_decode t \<noteq> Some (Inr (DecodedList l))"
  using RLP_decode_hex [of s] RLP_decode_not_list [of t l] by blast

theorem RLP_decode_reads_one_digit_witness:
  "hex_pattern ''0xc3a9''
   \<and> RLP_decode ''0xc3a9'' = Some (Inr (DecodedString [CHR 0xC3, CHR 0xA9]))
   \<and> hex_pattern ''0x80''
   \<and> RLP_decode ''0x80'' = Some (Inr (DecodedString (RLP_decodeString ''80'')))"
proof -
  have p: "hex_pattern ''0xc3a9''" and q: "hex_pattern ''0x80''"
    by (simp_all add: is_hex_digit_def)
  have "RLP_decodeString ''c3a9'' = [CHR 0xC3, CHR 0xA9]"
    by code_simp
  with RLP_decode_reads_one_digit [of "''0xc3a9''"] RLP_decode_reads_one_digit [of "''0x80''"] p q
  show ?thesis by simp
qed

section \<open>ABIUtils: properties\<close>

text \<open>
  Claim C3. \<^verbatim>\<open>encodeBytes32\<close> accepts a value of 64 characters that matches the hex pattern,
  and the pattern asks for the \<^verbatim>\<open>0x\<close> prefix. A string of exactly 64 hex digits has no prefix:
  it passes the length check and fails with the format error, where the claim has it
  returned unchanged. The other two parts of the claim hold: a string that is not 64
  characters long fails with the length error, and one of 64 characters that does not
  match the pattern with the format error.
\<close>

theorem encodeBytes32_rejects_hex_digits:
  "(length w = 64 \<and> list_all is_hex_digit w \<longrightarrow>
      ABIUtils_encodeParameter ''bytes32'' (JString w) = Inl (Error ''Value must be a valid hex string''))
   \<and> (length w \<noteq> 64 \<longrightarrow>
      ABIUtils_encodeParameter ''bytes32'' (JString w)
        = Inl (Error ''Value must be 32 bytes (64 hex characters)''))
   \<and> (length w = 64 \<and> \<not> hex_pattern w \<longrightarrow>
      ABIUtils_encodeParameter ''bytes32'' (JString w) = Inl (Error ''Value must be a valid hex string''))
   \<and> (length w = 64 \<and> hex_pattern w \<longrightarrow>
      ABIUtils_encodeParameter ''bytes32'' (JString w) = Inr w)"
  using hex_digits_not_pattern [of w] by (auto simp: ABIUtils_encodeParameter_def)

theorem encodeBytes32_rejects_hex_digits_witness:
  "length (replicate 64 CHR ''a'') = 64 \<and> list_all is_hex_digit (replicate 64 CHR ''a'')
   \<and> \<not> hex_pattern (replicate 64 CHR ''a'')
   \<and> ABIUtils_encodeParameter ''bytes32''
        (JString ''aaaaaaaaaaaaaaaaaaaaaaaaaaaaaaaaaaaaaaaaaaaaaaaaaaaaaaaaaaaaaaaa'')
        = Inl (Error ''Value must be a valid hex string'')
   \<and> length ''0x12'' \<noteq> 64
   \<and> ABIUtils_encodeParameter ''bytes32'' (JString ''0x12'')
        = Inl (Error ''Value must be 32 bytes (64 hex characters)'')
   \<and> length (''0x'' @ replicate 62 CHR ''a'') = 64 \<and> hex_pattern (''0x'' @ replicate 62 CHR ''a'')
   \<and> ABIUtils_encodeParameter ''bytes32'' (JString (''0x'' @ replicate 62 CHR ''a''))
        = Inr (''0x'' @ replicate 62 CHR ''a'')"
proof -
  have a: "is_hex_digit CHR ''a''" by (simp add: is_hex_digit_def)
  have r: "replicate 64 CHR ''a'' = ''aaaaaaaaaaaaaaaaaaaaaaaaaaaaaaaaaaaaaaaaaaaaaaaaaaaaaaaaaaaaaaaa''"
    by (simp add: numeral_eq_Suc)
  from a have digits: "length (replicate 64 CHR ''a'') = 64 \<and> list_all is_hex_digit (replicate 64 CHR ''a'')"
    by (simp add: list_all_iff)
  from r have no_prefix: "\<not> hex_pattern (replicate 64 CHR ''a'')"
    by simp
  from a have prefixed: "length (''0x'' @ replicate 62 CHR ''a'') = 64
      \<and> hex_pattern (''0x'' @ replicate 62 CHR ''a'')"
    by (simp add: list_all_iff)
  have short: "length ''0x12'' \<noteq> 64" by simp
  from encodeBytes32_rejects_hex_digits [of "replicate 64 CHR ''a''"] digits r
  have 1: "ABIUtils_encodeParameter ''bytes32''
        (JString ''aaaaaaaaaaaaaaaaaaaaaaaaaaaaaaaaaaaaaaaaaaaaaaaaaaaaaaaaaaaaaaaa'')
        = Inl (Error ''Value must be a valid hex string'')"
    by simp
  from encodeBytes32_rejects_hex_digits [of "''0x12''"] short
  have 2: "ABIUtils_encodeParameter ''bytes32'' (JString ''0x12'')
        = Inl (Error ''Value must be 32 bytes (64 hex characters)'')"
    by blast
  from encodeBytes32_rejects_hex_digits [of "''0x'' @ replicate 62 CHR ''a''"] prefixed
  have 3: "ABIUtils_encodeParameter ''bytes32'' (JString (''0x'' @ replicate 62 CHR ''a''))
        = Inr (''0x'' @ replicate 62 CHR ''a'')"
    by blast
  from digits no_prefix 1 short 2 prefixed 3 show ?thesis by blast
qed

text \<open>
  Claim C6. \<^verbatim>\<open>encodeParameter('address', '0x32Be343B94f860124dC4fEe278FDCBD38C102D88')\<close> is the
  40 hex digits of the address as they were given, upper and lower case kept, after 24
  zero digits: 64 characters. It is not the lowercase form.
\<close>

theorem encodeAddress_keeps_case:
  "ABIUtils_encodeParameter ''address'' (JString ''0x32Be343B94f860124dC4fEe278FDCBD38C102D88'')
     = Inr ''00000000000000000000000032Be343B94f860124dC4fEe278FDCBD38C102D88''"
  by (simp add: ABIUtils_encodeParameter_def padStart_def is_hex_digit_def numeral_eq_Suc)

theorem encodeAddress_lowercase_counterexample:
  "ABIUtils_encodeParameter ''address'' (JString ''0x32Be343B94f860124dC4fEe278FDCBD38C102D88'')
     \<noteq> Inr ''00000000000000000000000032be343b94f860124dc4fee278fdcbd38c102d88''"
  by (simp add: ABIUtils_encodeParameter_def padStart_def is_hex_digit_def numeral_eq_Suc)

text \<open>
  Claim C10. For every string \<open>v\<close> that matches the hex pattern and is shorter than 64
  characters, \<^verbatim>\<open>encodeParameter('bytes', v)\<close> is \<open>v\<close>, prefix included, after \<open>64 - length v\<close>
  zeros: a word of 64 characters with \<^verbatim>\<open>0x\<close> at offset \<open>64 - length v\<close>, which therefore is
  not made of hex digits only.
\<close>

theorem encodeBytes_pads_prefix:
  "hex_pattern v \<and> length v < 64 \<Longrightarrow>
     (\<exists>word. ABIUtils_encodeParameter ''bytes'' (JString v) = Inr word
        \<and> word = replicate (64 - length v) CHR ''0'' @ v
        \<and> length word = 64
        \<and> take 2 (drop (64 - length v) word) = ''0x''
        \<and> CHR ''x'' \<in> set word
        \<and> \<not> list_all is_hex_digit word)"
proof -
  assume a: "hex_pattern v \<and> length v < 64"
  then obtain ds where v: "v = ''0x'' @ ds" by (auto elim: hex_pattern_shape)
  let ?word = "replicate (64 - length v) CHR ''0'' @ v"
  from a have "ABIUtils_encodeParameter ''bytes'' (JString v) = Inr ?word"
    by (simp add: ABIUtils_encodeParameter_def padStart_def)
  moreover from a have "length ?word = 64" by simp
  moreover from v have "take 2 (drop (64 - length v) ?word) = ''0x''" by simp
  moreover from v have x: "CHR ''x'' \<in> set ?word" by simp
  moreover from x x_not_hex have "\<not> list_all is_hex_digit ?word"
    by (auto simp only: list_all_iff)
  ultimately show ?thesis by blast
qed

theorem encodeBytes_pads_prefix_witness:
  "hex_pattern ''0xab'' \<and> length ''0xab'' < 64
   \<and> ABIUtils_encodeParameter ''bytes'' (JString ''0xab'')
       = Inr ''0000000000000000000000000000000000000000000000000000000000000xab''
   \<and> take 2 (drop (64 - length ''0xab'') ''0000000000000000000000000000000000000000000000000000000000000xab'') = ''0x''"
proof -
  have h: "hex_pattern ''0xab'' \<and> length ''0xab'' < 64"
    by (simp add: is_hex_digit_def)
  have r: "replicate 60 CHR ''0'' = ''000000000000000000000000000000000000000000000000000000000000''"
    by (simp add: numeral_eq_Suc)
  from encodeBytes_pads_prefix [OF h] r
  have "ABIUtils_encodeParameter ''bytes'' (JString ''0xab'')
       = Inr ''0000000000000000000000000000000000000000000000000000000000000xab''"
    by simp
  with h show ?thesis by simp
qed

lemma encodeUInt256_overflow:
  "ABIUtils_encodeParameter ''uint256'' (JBigInt (2 ^ 256)) = Inr (CHR ''1'' # replicate 64 CHR ''0'')"
proof -
  have "nat \<bar>2 ^ 256 :: int\<bar> = 16 ^ 64" by simp
  then have "bigint_toString16 (2 ^ 256) = CHR ''1'' # replicate 64 CHR ''0''"
    by (simp only: bigint_toString16_def hex_of_nat_16_pow) simp
  then show ?thesis
    by (simp add: ABIUtils_encodeParameter_def ABIUtils_encodeUInt256_def padStart_def)
qed

lemma encodeUInt256_cases:
  assumes "ABIUtils_encodeUInt256 v = Inr word"
  obtains n where "BigInt v = Inr n" and "0 \<le> n" and "word = padStart 64 CHR ''0'' (bigint_toString16 n)"
  using assms by (auto simp: ABIUtils_encodeUInt256_def split: sum.splits if_splits)

lemma length_bigint_toString16: "0 \<le> n \<Longrightarrow> 64 < length (bigint_toString16 n) \<longleftrightarrow> 2 ^ 256 \<le> n"
proof -
  assume n: "0 \<le> n"
  have "64 < length (hex_of_nat (nat n)) \<longleftrightarrow> \<not> nat n < 2 ^ 256"
    using length_hex_of_nat_word [of "nat n"] by auto
  also have "\<dots> \<longleftrightarrow> 2 ^ 256 \<le> n"
    using n by (simp add: not_less nat_le_iff le_nat_iff)
  finally show ?thesis using n by (simp add: bigint_toString16_def)
qed

lemma encodeString_cases:
  assumes "ABIUtils_encodeString v = Inr word"
  obtains s where "v = JString s" and "word = padStart 64 CHR ''0'' (Buffer_toString_hex (Buffer_from_utf8 s))"
  using assms by (cases v) (auto simp: ABIUtils_encodeString_def)

lemma encodeAddress_length: "ABIUtils_encodeAddress v = Inr word \<Longrightarrow> length word = 64"
  by (cases v) (auto simp: length_padStart split: if_splits)

lemma encodeBytes32_length: "ABIUtils_encodeBytes32 v = Inr word \<Longrightarrow> length word = 64"
  by (cases v) (auto split: if_splits)

lemma encodeBytes_cases:
  assumes "ABIUtils_encodeBytes v = Inr word"
  obtains s where "v = JString s" and "hex_pattern s" and "word = padStart 64 CHR ''0'' s"
  using assms by (cases v) (auto split: if_splits)

lemma encodeBool_length: "length (ABIUtils_encodeBool v) = 64"
  by (simp add: ABIUtils_encodeBool_def)

lemma encodeParameter_word_cases:
  assumes "ABIUtils_encodeParameter type v = Inr word"
  shows "length word = 64
      \<or> 64 < length word
        \<and> (type = ''string'' \<and> (\<exists>s. v = JString s \<and> word = Buffer_toString_hex (Buffer_from_utf8 s))
           \<or> type = ''bytes'' \<and> v = JString word
           \<or> type = ''uint256'' \<and> (\<exists>n. BigInt v = Inr n \<and> 2 ^ 256 \<le> n \<and> word = bigint_toString16 n))"
proof -
  consider (u) "type = ''uint256''" "ABIUtils_encodeUInt256 v = Inr word"
    | (s) "type = ''string''" "ABIUtils_encodeString v = Inr word"
    | (b) "type = ''bool''" "word = ABIUtils_encodeBool v"
    | (a) "type = ''address''" "ABIUtils_encodeAddress v = Inr word"
    | (w) "type = ''bytes32''" "ABIUtils_encodeBytes32 v = Inr word"
    | (h) "type = ''bytes''" "ABIUtils_encodeBytes v = Inr word"
    using assms by (auto simp: ABIUtils_encodeParameter_def split: if_splits)
  then show ?thesis
  proof cases
    case u
    from u(2) obtain n where n: "BigInt v = Inr n" "0 \<le> n"
      and word: "word = padStart 64 CHR ''0'' (bigint_toString16 n)"
      by (rule encodeUInt256_cases)
    show ?thesis
    proof (cases "length (bigint_toString16 n) \<le> 64")
      case True
      with word show ?thesis by (simp add: length_padStart)
    next
      case False
      then have "64 < length (bigint_toString16 n)" by simp
      moreover from this have "word = bigint_toString16 n"
        using word by (simp add: padStart_long)
      moreover from \<open>64 < length (bigint_toString16 n)\<close> n(2) have "2 ^ 256 \<le> n"
        by (simp add: length_bigint_toString16)
      ultimately show ?thesis using u(1) n(1) by auto
    qed
  next
    case s
    from s(2) obtain t where t: "v = JString t"
      and word: "word = padStart 64 CHR ''0'' (Buffer_toString_hex (Buffer_from_utf8 t))"
      by (rule encodeString_cases)
    show ?thesis
    proof (cases "length (Buffer_toString_hex (Buffer_from_utf8 t)) \<le> 64")
      case True
      with word show ?thesis by (simp add: length_padStart)
    next
      case False
      then have "64 < length (Buffer_toString_hex (Buffer_from_utf8 t))" by simp
      moreover from this have "word = Buffer_toString_hex (Buffer_from_utf8 t)"
        using word by (simp add: padStart_long)
      ultimately show ?thesis using s(1) t by auto
    qed
  next
    case b
    then show ?thesis by (simp add: encodeBool_length)
  next
    case a
    then show ?thesis by (simp add: encodeAddress_length)
  next
    case w
    then show ?thesis by (simp add: encodeBytes32_length)
  next
    case h
    from h(2) obtain t where t: "v = JString t" and word: "word = padStart 64 CHR ''0'' t"
      by (rule encodeBytes_cases)
    show ?thesis
    proof (cases "length t \<le> 64")
      case True
      with word show ?thesis by (simp add: length_padStart)
    next
      case False
      then have "64 < length t" by simp
      moreover from this have "word = t" using word by (simp add: padStart_long)
      ultimately show ?thesis using h(1) t by auto
    qed
  qed
qed

text \<open>
  Claim C5, amended. Whenever \<^verbatim>\<open>encodeParameter\<close> succeeds the word has exactly 64
  characters, except in three cases where \<^verbatim>\<open>padStart\<close> has nothing to add and the longer
  text is returned as it is: a \<^verbatim>\<open>string\<close> of more than 32 bytes (the word is its hex form, two
  digits per byte), a \<^verbatim>\<open>bytes\<close> value of more than 64 characters (the word is the value),
  and a \<^verbatim>\<open>uint256\<close> value of \<open>2 ^ 256\<close> or more (the word is its hex digits). The claim
  names the first two cases only; \<open>2 ^ 256\<close> itself gives 65 characters.
\<close>

theorem encodeParameter_length:
  "(ABIUtils_encodeParameter type v = Inr word \<longrightarrow>
      length word = 64
      \<or> 64 < length word
        \<and> (type = ''string'' \<and> (\<exists>s. v = JString s \<and> word = Buffer_toString_hex (Buffer_from_utf8 s))
           \<or> type = ''bytes'' \<and> v = JString word
           \<or> type = ''uint256'' \<and> (\<exists>n. BigInt v = Inr n \<and> 2 ^ 256 \<le> n \<and> word = bigint_toString16 n)))
   \<and> (32 < length s \<longrightarrow>
        ABIUtils_encodeParameter ''string'' (JString s) = Inr (Buffer_toString_hex (Buffer_from_utf8 s))
        \<and> length (Buffer_toString_hex (Buffer_from_utf8 s)) = 2 * length s)
   \<and> (hex_pattern h \<and> 64 < length h \<longrightarrow> ABIUtils_encodeParameter ''bytes'' (JString h) = Inr h)
   \<and> (BigInt u = Inr m \<and> 2 ^ 256 \<le> m \<longrightarrow>
        ABIUtils_encodeParameter ''uint256'' u = Inr (bigint_toString16 m)
        \<and> 64 < length (bigint_toString16 m))"
proof (intro conjI impI)
  assume "ABIUtils_encodeParameter type v = Inr word"
  then show "length word = 64
      \<or> 64 < length word
        \<and> (type = ''string'' \<and> (\<exists>s. v = JString s \<and> word = Buffer_toString_hex (Buffer_from_utf8 s))
           \<or> type = ''bytes'' \<and> v = JString word
           \<or> type = ''uint256'' \<and> (\<exists>n. BigInt v = Inr n \<and> 2 ^ 256 \<le> n \<and> word = bigint_toString16 n))"
    by (rule encodeParameter_word_cases)
next
  assume "32 < length s"
  then show "ABIUtils_encodeParameter ''string'' (JString s) = Inr (Buffer_toString_hex (Buffer_from_utf8 s))"
    by (simp add: ABIUtils_encodeParameter_def ABIUtils_encodeString_def padStart_long
        length_Buffer_toString_hex Buffer_from_utf8_def)
next
  show "length (Buffer_toString_hex (Buffer_from_utf8 s)) = 2 * length s"
    by (simp add: length_Buffer_toString_hex Buffer_from_utf8_def)
next
  assume "hex_pattern h \<and> 64 < length h"
  then show "ABIUtils_encodeParameter ''bytes'' (JString h) = Inr h"
    by (simp add: ABIUtils_encodeParameter_def padStart_long)
next
  assume m: "BigInt u = Inr m \<and> 2 ^ 256 \<le> m"
  then have pos: "0 \<le> m" by simp
  with m show long: "64 < length (bigint_toString16 m)"
    by (simp add: length_bigint_toString16)
  with m pos show "ABIUtils_encodeParameter ''uint256'' u = Inr (bigint_toString16 m)"
    by (simp add: ABIUtils_encodeParameter_def ABIUtils_encodeUInt256_def padStart_long)
qed

theorem encodeParameter_length_witness:
  "ABIUtils_encodeParameter ''uint256'' (JNumber 1000)
     = Inr ''00000000000000000000000000000000000000000000000000000000000003e8''
   \<and> length ''00000000000000000000000000000000000000000000000000000000000003e8'' = 64
   \<and> 32 < length ''0x32Be343B94f860124dC4fEe278FDCBD38C102D88''
   \<and> ABIUtils_encodeParameter ''string'' (JString ''0x32Be343B94f860124dC4fEe278FDCBD38C102D88'')
       = Inr ''307833324265333433423934663836303132346443346645653237384644434244333843313032443838''
   \<and> hex_pattern (''0x'' @ replicate 63 CHR ''0'') \<and> 64 < length (''0x'' @ replicate 63 CHR ''0'')
   \<and> ABIUtils_encodeParameter ''bytes'' (JString (''0x'' @ replicate 63 CHR ''0''))
       = Inr (''0x'' @ replicate 63 CHR ''0'')
   \<and> BigInt (JBigInt (2 ^ 256)) = Inr (2 ^ 256) \<and> (2 ^ 256 :: int) \<le> 2 ^ 256
   \<and> ABIUtils_encodeParameter ''uint256'' (JBigInt (2 ^ 256)) = Inr (bigint_toString16 (2 ^ 256))
   \<and> 64 < length (bigint_toString16 (2 ^ 256))"
proof -
  have h: "hex_of_nat 1000 = ''3e8''"
    by (simp add: hex_of_nat.simps hex_digit_def)
  have r: "replicate 61 CHR ''0'' = ''0000000000000000000000000000000000000000000000000000000000000''"
    by (simp add: numeral_eq_Suc)
  have enc: "ABIUtils_encodeParameter ''uint256'' (JNumber 1000)
     = Inr ''00000000000000000000000000000000000000000000000000000000000003e8''"
    by (simp add: ABIUtils_encodeParameter_def ABIUtils_encodeUInt256_def padStart_def
        bigint_toString16_def h r)
  have str: "32 < length ''0x32Be343B94f860124dC4fEe278FDCBD38C102D88''"
    by simp
  have hex: "Buffer_toString_hex (Buffer_from_utf8 ''0x32Be343B94f860124dC4fEe278FDCBD38C102D88'')
      = ''307833324265333433423934663836303132346443346645653237384644434244333843313032443838''"
    by code_simp
  have bytes: "hex_pattern (''0x'' @ replicate 63 CHR ''0'') \<and> 64 < length (''0x'' @ replicate 63 CHR ''0'')"
    by (simp add: is_hex_digit_def list_all_iff)
  have big: "BigInt (JBigInt (2 ^ 256)) = Inr (2 ^ 256) \<and> (2 ^ 256 :: int) \<le> 2 ^ 256"
    by simp
  note len = encodeParameter_length [of "''uint256''" "JNumber 1000"
      "''00000000000000000000000000000000000000000000000000000000000003e8''"
      "''0x32Be343B94f860124dC4fEe278FDCBD38C102D88''" "''0x'' @ replicate 63 CHR ''0''"
      "JBigInt (2 ^ 256)" "2 ^ 256"]
  from len str hex have 1: "ABIUtils_encodeParameter ''string'' (JString ''0x32Be343B94f860124dC4fEe278FDCBD38C102D88'')
       = Inr ''307833324265333433423934663836303132346443346645653237384644434244333843313032443838''"
    by simp
  from len bytes have 2: "ABIUtils_encodeParameter ''bytes'' (JString (''0x'' @ replicate 63 CHR ''0''))
       = Inr (''0x'' @ replicate 63 CHR ''0'')"
    by blast
  from len big have 3: "ABIUtils_encodeParameter ''uint256'' (JBigInt (2 ^ 256)) = Inr (bigint_toString16 (2 ^ 256))
      \<and> 64 < length (bigint_toString16 (2 ^ 256))"
    by blast
  have 4: "length ''00000000000000000000000000000000000000000000000000000000000003e8'' = 64"
    by simp
  from enc 4 str 1 bytes 2 big 3 show ?thesis by blast
qed

theorem encodeParameter_length_counterexample:
  "ABIUtils_encodeParameter ''uint256'' (JBigInt (2 ^ 256)) = Inr (CHR ''1'' # replicate 64 CHR ''0'')
   \<and> length (CHR ''1'' # replicate 64 CHR ''0'') = 65"
  using encodeUInt256_overflow by simp

lemma ABI_string_round_trip:
  assumes "CHR 0x00 \<notin> set s"
  shows "ABIUtils_decodeString (padStart 64 CHR ''0'' (Buffer_toString_hex (Buffer_from_utf8 s)))
           = JString s"
proof -
  let ?bs = "Buffer_from_utf8 s"
  have "Buffer_from_hex (padStart 64 CHR ''0'' (Buffer_toString_hex ?bs))
          = replicate (32 - length ?bs) 0 @ ?bs"
    using Buffer_from_hex_toString [OF Buffer_from_utf8_bytes, of s "[]"]
    by (simp add: padStart_hex_buffer Buffer_from_hex_zeros)
  moreover from assms have "filter (\<lambda>c. c \<noteq> CHR 0x00) s = s"
    by (auto simp: filter_id_conv)
  ultimately show ?thesis
    by (simp add: ABIUtils_decodeString_def Buffer_toString_utf8_append
        Buffer_toString_utf8_zeros Buffer_toString_from_utf8)
qed

lemma ABI_uint256_round_trip:
  assumes "0 \<le> n"
  shows "ABIUtils_decodeUInt256 (padStart 64 CHR ''0'' (bigint_toString16 n)) = Inr (JBigInt n)"
proof -
  let ?w = "padStart 64 CHR ''0'' (hex_of_nat (nat n))"
  have "?w \<noteq> []" by (simp add: padStart_def hex_of_nat_not_Nil)
  moreover have "list_all is_hex_digit ?w"
    using list_all_hex_of_nat [of "nat n"] by (auto simp: padStart_def list_all_iff zero_is_hex)
  ultimately have "StringToBigInt (''0x'' @ ?w) = Some (int (hex_value ?w))"
    by (rule StringToBigInt_hex)
  moreover have "hex_value ?w = nat n"
    by (simp add: padStart_def hex_value_zeros hex_value_hex_of_nat)
  ultimately show ?thesis
    using assms by (simp add: ABIUtils_decodeUInt256_def bigint_toString16_def)
qed

lemma pad_address:
  assumes "hex_pattern a" and "length a = 42"
  shows "padStart 64 CHR ''0'' (drop 2 a) = replicate 24 CHR ''0'' @ drop 2 a"
    and "''0x'' @ drop 2 a = a"
proof -
  from assms(1) obtain ds where a: "a = ''0x'' @ ds" by (rule hex_pattern_shape)
  with assms(2) show "padStart 64 CHR ''0'' (drop 2 a) = replicate 24 CHR ''0'' @ drop 2 a"
    by (simp add: padStart_def)
  from a show "''0x'' @ drop 2 a = a" by simp
qed

text \<open>
  Claim C4, amended. For the tags \<^verbatim>\<open>uint256\<close>, \<^verbatim>\<open>string\<close>, \<^verbatim>\<open>bool\<close> and \<^verbatim>\<open>address\<close>, decoding what was
  encoded gives the value back: a \<^verbatim>\<open>uint256\<close> comes back as the bigint of the value's
  number, for every value that \<^verbatim>\<open>BigInt\<close> converts to a non-negative integer; a \<^verbatim>\<open>string\<close>
  without NUL characters comes back unchanged; so do a boolean and an address (42
  characters matching the hex pattern). The claim as stated fails in three places. A
  \<^verbatim>\<open>bytes32\<close> value of 64 hex digits is not encoded at all: the encoder throws the format
  error. A \<^verbatim>\<open>bytes\<close> value shorter than 64 characters comes back with its padding. A string
  that contains NUL characters comes back without them. Nothing is stated here about
  \<^verbatim>\<open>bytes32\<close> and \<^verbatim>\<open>bytes\<close>.
\<close>

theorem ABI_round_trip:
  "(BigInt v = Inr n \<and> 0 \<le> n \<longrightarrow> decode_encode ''uint256'' v = Inr (JBigInt n))
   \<and> (CHR 0x00 \<notin> set s \<longrightarrow> decode_encode ''string'' (JString s) = Inr (JString s))
   \<and> decode_encode ''bool'' (JBool b) = Inr (JBool b)
   \<and> (hex_pattern a \<and> length a = 42 \<longrightarrow> decode_encode ''address'' (JString a) = Inr (JString a))"
proof (intro conjI impI)
  assume "BigInt v = Inr n \<and> 0 \<le> n"
  then show "decode_encode ''uint256'' v = Inr (JBigInt n)"
    by (simp add: decode_encode_def ABIUtils_encodeParameter_def ABIUtils_decodeParameter_def
        ABIUtils_encodeUInt256_def ABI_uint256_round_trip)
next
  assume "CHR 0x00 \<notin> set s"
  then show "decode_encode ''string'' (JString s) = Inr (JString s)"
    by (simp add: decode_encode_def ABIUtils_encodeParameter_def ABIUtils_decodeParameter_def
        ABIUtils_encodeString_def ABI_string_round_trip)
next
  show "decode_encode ''bool'' (JBool b) = Inr (JBool b)"
    by (simp add: decode_encode_def ABIUtils_encodeParameter_def ABIUtils_decodeParameter_def
        ABIUtils_encodeBool_def ABIUtils_decodeBool_def)
next
  assume "hex_pattern a \<and> length a = 42"
  then show "decode_encode ''address'' (JString a) = Inr (JString a)"
    using pad_address [of a]
    by (simp add: decode_encode_def ABIUtils_encodeParameter_def ABIUtils_decodeParameter_def
        ABIUtils_decodeAddress_def)
qed

theorem ABI_round_trip_witness:
  "BigInt (JString ''1234567890'') = Inr 1234567890 \<and> (0::int) \<le> 1234567890
   \<and> decode_encode ''uint256'' (JString ''1234567890'') = Inr (JBigInt 1234567890)
   \<and> BigInt (JBigInt 1000) = Inr 1000 \<and> (0::int) \<le> 1000
   \<and> decode_encode ''uint256'' (JBigInt 1000) = Inr (JBigInt 1000)
   \<and> CHR 0x00 \<notin> set ''Hello, Quantova!''
   \<and> decode_encode ''string'' (JString ''Hello, Quantova!'') = Inr (JString ''Hello, Quantova!'')
   \<and> decode_encode ''bool'' (JBool True) = Inr (JBool True)
   \<and> hex_pattern ''0x32Be343B94f860124dC4fEe278FDCBD38C102D88''
   \<and> length ''0x32Be343B94f860124dC4fEe278FDCBD38C102D88'' = 42
   \<and> decode_encode ''address'' (JString ''0x32Be343B94f860124dC4fEe278FDCBD38C102D88'')
       = Inr (JString ''0x32Be343B94f860124dC4fEe278FDCBD38C102D88'')"
proof -
  have big: "BigInt (JString ''1234567890'') = Inr 1234567890 \<and> (0::int) \<le> 1234567890"
    by (simp add: StringToBigInt_def trim_def is_space_def radix_digits_def radix_value_def
        is_hex_digit_def digit_value_def Let_def)
  have own: "BigInt (JBigInt 1000) = Inr 1000 \<and> (0::int) \<le> 1000"
    by simp
  have nul: "CHR 0x00 \<notin> set ''Hello, Quantova!''"
    by simp
  have addr: "hex_pattern ''0x32Be343B94f860124dC4fEe278FDCBD38C102D88''
      \<and> length ''0x32Be343B94f860124dC4fEe278FDCBD38C102D88'' = 42"
    by (simp add: is_hex_digit_def)
  note rt = ABI_round_trip [of "JString ''1234567890''" 1234567890 "''Hello, Quantova!''" True
      "''0x32Be343B94f860124dC4fEe278FDCBD38C102D88''"]
  from rt big have 1: "decode_encode ''uint256'' (JString ''1234567890'') = Inr (JBigInt 1234567890)"
    by blast
  from ABI_round_trip [of "JBigInt 1000" 1000] own
  have 2: "decode_encode ''uint256'' (JBigInt 1000) = Inr (JBigInt 1000)"
    by blast
  from rt nul have 3: "decode_encode ''string'' (JString ''Hello, Quantova!'') = Inr (JString ''Hello, Quantova!'')"
    by blast
  from rt have 4: "decode_encode ''bool'' (JBool True) = Inr (JBool True)"
    by blast
  from rt addr have 5: "decode_encode ''address'' (JString ''0x32Be343B94f860124dC4fEe278FDCBD38C102D88'')
       = Inr (JString ''0x32Be343B94f860124dC4fEe278FDCBD38C102D88'')"
    by blast
  from big own nul addr 1 2 3 4 5 show ?thesis by blast
qed

theorem ABI_round_trip_counterexample:
  "decode_encode ''bytes32''
       (JString ''aaaaaaaaaaaaaaaaaaaaaaaaaaaaaaaaaaaaaaaaaaaaaaaaaaaaaaaaaaaaaaaa'')
     = Inl (Error ''Value must be a valid hex string'')
   \<and> decode_encode ''bytes'' (JString ''0xab'')
     = Inr (JString ''0000000000000000000000000000000000000000000000000000000000000xab'')
   \<and> decode_encode ''bytes'' (JString ''0xab'') \<noteq> Inr (JString ''0xab'')
   \<and> decode_encode ''string'' (JString [CHR ''a'', CHR 0x00, CHR ''b'']) = Inr (JString ''ab'')"
proof -
  have "decode_encode ''bytes32''
       (JString ''aaaaaaaaaaaaaaaaaaaaaaaaaaaaaaaaaaaaaaaaaaaaaaaaaaaaaaaaaaaaaaaa'')
     = Inl (Error ''Value must be a valid hex string'')"
    by (simp add: decode_encode_def ABIUtils_encodeParameter_def)
  moreover have "decode_encode ''bytes'' (JString ''0xab'')
     = Inr (JString ''0000000000000000000000000000000000000000000000000000000000000xab'')"
    by (simp add: decode_encode_def ABIUtils_encodeParameter_def ABIUtils_decodeParameter_def
        ABIUtils_decodeBytes_def padStart_def is_hex_digit_def numeral_eq_Suc)
  moreover have "decode_encode ''string'' (JString [CHR ''a'', CHR 0x00, CHR ''b'']) = Inr (JString ''ab'')"
    by code_simp
  ultimately show ?thesis by simp
qed

section \<open>JSONUtils: properties\<close>

lemma getType_never_bytes32: "JSONUtils_getType v \<noteq> Inr ''bytes32''"
  by (cases v) simp_all

text \<open>
  Claim C2. The claim has \<^verbatim>\<open>getType\<close> give \<^verbatim>\<open>bytes32\<close> for every string that matches the hex
  pattern. The code tests \<^verbatim>\<open>typeof value === 'string'\<close> before it tests \<^verbatim>\<open>isHex(value)\<close>, so
  such a string is typed \<^verbatim>\<open>string\<close>, and the branch that returns \<^verbatim>\<open>bytes32\<close> is reached by no
  value at all. The rest of the claim holds: a number gives \<^verbatim>\<open>uint256\<close>, a boolean \<^verbatim>\<open>bool\<close>,
  an array \<^verbatim>\<open>bytes[]\<close>, and \<^verbatim>\<open>null\<close>, \<^verbatim>\<open>undefined\<close>, a bigint and a plain object fail as
  unsupported.
\<close>

theorem getType_hex_string:
  "(hex_pattern s \<longrightarrow> JSONUtils_getType (JString s) = Inr ''string'')
   \<and> JSONUtils_getType v \<noteq> Inr ''bytes32''
   \<and> JSONUtils_getType (JNumber x) = Inr ''uint256''
   \<and> JSONUtils_getType (JBool b) = Inr ''bool''
   \<and> JSONUtils_getType (JArray vs) = Inr ''bytes[]''
   \<and> JSONUtils_getType JNull = Inl (Error ''Unsupported type'')
   \<and> JSONUtils_getType JUndefined = Inl (Error ''Unsupported type'')
   \<and> JSONUtils_getType (JBigInt n) = Inl (Error ''Unsupported type'')
   \<and> JSONUtils_getType (JObject kvs) = Inl (Error ''Unsupported type'')"
  using getType_never_bytes32 [of v] by simp

theorem getType_hex_string_witness:
  "hex_pattern ''0xabcd'' \<and> JSONUtils_getType (JString ''0xabcd'') = Inr ''string''
   \<and> JSONUtils_getType (JString ''0xabcd'') \<noteq> Inr ''bytes32''"
proof -
  have h: "hex_pattern ''0xabcd''"
    by (simp add: is_hex_digit_def)
  with getType_hex_string [of "''0xabcd''" "JString ''0xabcd''"] show ?thesis
    by blast
qed

text \<open>
  Claim C8. \<^verbatim>\<open>typeof null\<close> is \<^verbatim>\<open>'object'\<close>, so \<^verbatim>\<open>encodeJSON(null)\<close> reaches \<^verbatim>\<open>encodeObject\<close>,
  whose loop over the properties of \<^verbatim>\<open>null\<close> runs no step, and returns the empty string
  where the claim has it fail. On \<^verbatim>\<open>undefined\<close>, a number, a string, a boolean and a bigint
  the call fails as the claim says.
\<close>

theorem encodeJSON_null:
  "JSONUtils_encodeJSON JNull = Inr []
   \<and> JSONUtils_encodeJSON JUndefined = Inl (Error ''Value must be an object or an array'')
   \<and> JSONUtils_encodeJSON (JNumber x) = Inl (Error ''Value must be an object or an array'')
   \<and> JSONUtils_encodeJSON (JString s) = Inl (Error ''Value must be an object or an array'')
   \<and> JSONUtils_encodeJSON (JBool b) = Inl (Error ''Value must be an object or an array'')
   \<and> JSONUtils_encodeJSON (JBigInt n) = Inl (Error ''Value must be an object or an array'')"
  by simp

end
